theory Spec2Isabelle
  imports Main "HOL-Library.Word"
begin

section \<open>Terminal controller: keys and events\<close>

text \<open>
  Package \<open>term\<close>: \<open>type Key int\<close>, \<open>type EventType int\<close> and
  \<open>Event {Type, Key, Rune}\<close>. A Go \<open>rune\<close> is an \<open>int32\<close>; the decoder only
  compares runes, so they are integers here. Only the key codes the decoder
  mentions are named; \<open>KeyRune\<close> starts the second constant block at
  \<open>iota + 1000\<close>.
\<close>

type_synonym rune = int

type_synonym Key = int

definition KeyCtrlC :: Key where "KeyCtrlC = 3"

definition KeyCtrlD :: Key where "KeyCtrlD = 4"

definition KeyTab :: Key where "KeyTab = 9"

definition KeyCtrlL :: Key where "KeyCtrlL = 12"

definition KeyCr :: Key where "KeyCr = 13"

definition KeyCtrlU :: Key where "KeyCtrlU = 21"

definition KeyEsc :: Key where "KeyEsc = 27"

definition KeyBackspace :: Key where "KeyBackspace = 127"

definition KeyRune :: Key where "KeyRune = 1000"

definition KeyUnknown :: Key where "KeyUnknown = 1001"

definition KeyLeft :: Key where "KeyLeft = 1002"

definition KeyRight :: Key where "KeyRight = 1003"

definition KeyUp :: Key where "KeyUp = 1004"

definition KeyDown :: Key where "KeyDown = 1005"

definition KeyHome :: Key where "KeyHome = 1006"

definition KeyEnd :: Key where "KeyEnd = 1007"

definition KeyDel :: Key where "KeyDel = 1009"

definition KeyPageUp :: Key where "KeyPageUp = 1010"

definition KeyPageDown :: Key where "KeyPageDown = 1011"

definition KeyShiftTab :: Key where "KeyShiftTab = 1027"

datatype EventType = EventKey | EventResize

record Event =
  Type :: EventType
  Key :: Key
  Rune :: rune

text \<open>\<open>&Event{Type: EventKey, Key: key}\<close>: the rune keeps its zero value.\<close>

definition key_event :: "Key \<Rightarrow> Event" where
  "key_event k = \<lparr>Type = EventKey, Key = k, Rune = 0\<rparr>"

text \<open>\<open>&Event{Type: EventKey, Key: KeyRune, Rune: r}\<close>, the label \<open>normal\<close>.\<close>

definition rune_event :: "rune \<Rightarrow> Event" where
  "rune_event r = \<lparr>Type = EventKey, Key = KeyRune, Rune = r\<rparr>"

section \<open>The decode loop of readEvents\<close>

text \<open>
  The runes of a Go string literal made of ASCII characters. The decoder
  compares \<open>string(seq[a:b])\<close> with such literals; the UTF-8 encoding of a
  rune slice equals an ASCII literal exactly when the runes are the
  literal's characters, so the comparison is on rune lists.
\<close>

definition runes_of :: "string \<Rightarrow> rune list" where
  "runes_of s = map (\<lambda>c. int (of_char c)) s"

text \<open>The Go slice expression \<open>seq[a:b]\<close>, used only where \<open>b \<le> len(seq)\<close>.\<close>

definition slice :: "'a list \<Rightarrow> nat \<Rightarrow> nat \<Rightarrow> 'a list" where
  "slice xs a b = take (b - a) (drop a xs)"

text \<open>The first \<open>switch\<close>: two runes after the escape.\<close>

definition key2 :: "rune list \<Rightarrow> Key" where
  "key2 s =
    (if s = runes_of ''[A'' then KeyUp
     else if s = runes_of ''[B'' then KeyDown
     else if s = runes_of ''[C'' then KeyRight
     else if s = runes_of ''[D'' then KeyLeft
     else if s = runes_of ''[H'' then KeyHome
     else if s = runes_of ''[F'' then KeyEnd
     else if s = runes_of ''[Z'' then KeyShiftTab
     else if s = runes_of ''OH'' then KeyHome
     else if s = runes_of ''OF'' then KeyEnd
     else KeyUnknown)"

text \<open>The second \<open>switch\<close>: three runes after the escape.\<close>

definition key3 :: "rune list \<Rightarrow> Key" where
  "key3 s =
    (if s = runes_of ''[3~'' then KeyDel
     else if s = runes_of ''[5~'' then KeyPageUp
     else if s = runes_of ''[6~'' then KeyPageDown
     else KeyUnknown)"

text \<open>
  The loop \<open>i := 0; for i < len(seq) { ... }\<close> over the runes collected in
  one 50 ms window, returning the events sent on \<open>t.events\<close> in order. The
  index advances by 4 after a two-rune suffix and by 5 after a three-rune
  suffix, as the source writes it.
\<close>

function readEvents_loop :: "rune list \<Rightarrow> nat \<Rightarrow> Event list" where
  "readEvents_loop seq i =
    (if i < length seq then
       (let r = seq ! i in
        if r = KeyEsc then
          (if 2 \<le> length (drop (i + 1) seq) \<and> key2 (slice seq (i + 1) (i + 3)) \<noteq> KeyUnknown
           then key_event (key2 (slice seq (i + 1) (i + 3))) # readEvents_loop seq (i + 4)
           else if 3 \<le> length (drop (i + 1) seq) \<and> key3 (slice seq (i + 1) (i + 4)) \<noteq> KeyUnknown
           then key_event (key3 (slice seq (i + 1) (i + 4))) # readEvents_loop seq (i + 5)
           else rune_event KeyEsc # readEvents_loop seq (i + 1))
        else if r < 27 \<or> r = 127 then key_event r # readEvents_loop seq (i + 1)
        else rune_event r # readEvents_loop seq (i + 1))
     else [])"
  by pat_completeness auto
termination
  by (relation "measure (\<lambda>(seq, i). length seq - i)") auto

declare readEvents_loop.simps [simp del]

text \<open>The events of one collected window: the loop from index 0.\<close>

definition decode_window :: "rune list \<Rightarrow> Event list" where
  "decode_window seq = readEvents_loop seq 0"

text \<open>
  Lines 333 to 340 for one rune that is not handled as an escape: a
  control-key event for a rune below 27 or equal to 127, else a rune event.
\<close>

definition literal_event :: "rune \<Rightarrow> Event" where
  "literal_event r = (if r < 27 \<or> r = 127 then key_event r else rune_event r)"

text \<open>
  The two guards of the escape branch at index \<open>i\<close>: one of the switches
  finds a key for the runes after the escape.
\<close>

definition recognized_at :: "rune list \<Rightarrow> nat \<Rightarrow> bool" where
  "recognized_at seq i =
    ((2 \<le> length (drop (i + 1) seq) \<and> key2 (slice seq (i + 1) (i + 3)) \<noteq> KeyUnknown) \<or>
     (3 \<le> length (drop (i + 1) seq) \<and> key3 (slice seq (i + 1) (i + 4)) \<noteq> KeyUnknown))"

text \<open>No escape rune from index \<open>i\<close> on starts a recognized suffix.\<close>

definition no_sequence_from :: "rune list \<Rightarrow> nat \<Rightarrow> bool" where
  "no_sequence_from seq i =
     list_all (\<lambda>j. seq ! j = KeyEsc \<longrightarrow> \<not> recognized_at seq j) [i..<length seq]"

section \<open>Go strings\<close>

text \<open>
  A Go string is a sequence of bytes: a \<open>string\<close> here. \<open>len\<close> counts
  bytes and \<open>s[:i]\<close> cuts at a byte index. A \<open>range\<close> over a string and the
  conversion \<open>[]rune(s)\<close> decode UTF-8 as \<open>utf8.DecodeRuneInString\<close> does:
  a malformed or truncated encoding yields \<open>RuneError\<close> and consumes one
  byte.
\<close>

definition RuneError :: rune where "RuneError = 65533"

fun DecodeRuneInString :: "string \<Rightarrow> rune \<times> nat" where
  "DecodeRuneInString [] = (RuneError, 0)"
| "DecodeRuneInString (c0 # cs) =
    (let s0 = (of_char c0 :: nat) in
     if s0 < 128 then (int s0, 1)
     else if s0 < 194 \<or> 244 < s0 then (RuneError, 1)
     else
       let sz = (if s0 < 224 then 2 else if s0 < 240 then 3 else 4 :: nat);
           lo = (if s0 = 224 then 160 else if s0 = 240 then 144 else 128 :: nat);
           hi = (if s0 = 237 then 159 else if s0 = 244 then 143 else 191 :: nat)
       in
       if length (c0 # cs) < sz then (RuneError, 1)
       else
         let s1 = (of_char (cs ! 0) :: nat) in
         if s1 < lo \<or> hi < s1 then (RuneError, 1)
         else if sz \<le> 2 then (int ((s0 mod 32) * 64 + s1 mod 64), 2)
         else
           let s2 = (of_char (cs ! 1) :: nat) in
           if s2 < 128 \<or> 191 < s2 then (RuneError, 1)
           else if sz \<le> 3 then
             (int ((s0 mod 16) * 4096 + (s1 mod 64) * 64 + s2 mod 64), 3)
           else
             let s3 = (of_char (cs ! 2) :: nat) in
             if s3 < 128 \<or> 191 < s3 then (RuneError, 1)
             else
               (int ((s0 mod 8) * 262144 + (s1 mod 64) * 4096 + (s2 mod 64) * 64 + s3 mod 64), 4))"

text \<open>
  \<open>for i, c := range s\<close>: the pairs of byte index and rune, in order. With
  one loop variable, \<open>for i := range s\<close>, only the byte index is bound.
\<close>

function range_string :: "string \<Rightarrow> nat \<Rightarrow> (nat \<times> rune) list" where
  "range_string s i =
    (if i < length s then
       (i, fst (DecodeRuneInString (drop i s))) #
         range_string s (i + snd (DecodeRuneInString (drop i s)))
     else [])"
  by pat_completeness auto
termination
proof (relation "measure (\<lambda>(s, i). length s - i)")
  show "wf (measure (\<lambda>(s, i). length s - i))" by simp
next
  fix s :: string and i :: nat
  assume "i < length s"
  then have "drop i s \<noteq> []" by simp
  then have "0 < snd (DecodeRuneInString (drop i s))"
    by (cases "drop i s") (simp_all add: Let_def)
  with \<open>i < length s\<close>
  show "((s, i + snd (DecodeRuneInString (drop i s))), (s, i)) \<in> measure (\<lambda>(s, i). length s - i)"
    by simp
qed

declare range_string.simps [simp del]

text \<open>The conversion \<open>[]rune(s)\<close>.\<close>

definition to_runes :: "string \<Rightarrow> rune list" where
  "to_runes s = map snd (range_string s 0)"

text \<open>
  The conversion \<open>string(r)\<close> of an integer: the UTF-8 encoding of the code
  point, and of \<open>RuneError\<close> for a value that is no valid code point.
\<close>

definition EncodeRune :: "nat \<Rightarrow> string" where
  "EncodeRune n =
    (if n < 128 then [char_of n]
     else if n < 2048 then [char_of (192 + n div 64), char_of (128 + n mod 64)]
     else if n < 65536 then
       [char_of (224 + n div 4096), char_of (128 + (n div 64) mod 64), char_of (128 + n mod 64)]
     else
       [char_of (240 + n div 262144), char_of (128 + (n div 4096) mod 64),
        char_of (128 + (n div 64) mod 64), char_of (128 + n mod 64)])"

definition string_of_rune :: "int \<Rightarrow> string" where
  "string_of_rune r =
    (if r < 0 \<or> 1114111 < r \<or> (55296 \<le> r \<and> r \<le> 57343)
     then EncodeRune (nat RuneError) else EncodeRune (nat r))"

text \<open>\<open>strings.Join(elems, sep)\<close>.\<close>

fun Join :: "string list \<Rightarrow> string \<Rightarrow> string" where
  "Join [] sep = []"
| "Join [x] sep = x"
| "Join (x # y # ys) sep = x @ sep @ Join (y # ys) sep"

section \<open>The terminal\<close>

text \<open>
  Go panics the modelled code can raise. A panic does not undo the
  assignments made before it, so an operation returns the state it reached
  together with the panic, if any.
\<close>

datatype panic =
  IndexOutOfRange
  | NegativeRepeatCount
  | CloseOfNilChannel
  | CloseOfClosedChannel
  | NilDereference

text \<open>The error values \<open>Start\<close> returns; the number is the errno of the ioctl.\<close>

datatype error = OpenError | FetchModeError nat | SetModeError nat | WindowSizeError nat

text \<open>A channel variable: \<open>nil\<close>, made and open, or closed.\<close>

datatype chan = NilChan | OpenChan | ClosedChan

text \<open>What a \<open>bufio.Reader\<close> reads from: the opened file or a \<open>NopReader\<close>.\<close>

datatype reader = FileReader | NopReader

text \<open>\<open>syscall.Termios\<close> with the fields \<open>cloneMode\<close> copies, and \<open>Line\<close>.\<close>

record termios =
  Iflag :: "32 word"
  Oflag :: "32 word"
  Cflag :: "32 word"
  Lflag :: "32 word"
  Line :: "8 word"
  Cc :: "8 word list"
  Ispeed :: "32 word"
  Ospeed :: "32 word"

text \<open>
  The flag constants of package \<open>syscall\<close> that \<open>Start\<close> uses. Their values
  are fixed by the platform and are not part of the repository, so they
  are a parameter.
\<close>

record syscall_flags =
  IGNBRK :: "32 word"
  BRKINT :: "32 word"
  PARMRK :: "32 word"
  ISTRIP :: "32 word"
  INLCR :: "32 word"
  IGNCR :: "32 word"
  ICRNL :: "32 word"
  IXON :: "32 word"
  OPOST :: "32 word"
  CS8 :: "32 word"
  CSIZE :: "32 word"
  PARENB :: "32 word"
  ECHO :: "32 word"
  ECHONL :: "32 word"
  ICANON :: "32 word"
  ISIG :: "32 word"
  IEXTEN :: "32 word"

text \<open>
  The device \<open>/dev/tty\<close> as the program sees it: its current attributes,
  the \<open>Fprintf\<close> calls that reached it (format and arguments), whether
  \<open>SIGWINCH\<close> is routed to the program, and how its system calls answer
  (an errno of 0 is success; \<open>cols\<close> and \<open>rows\<close> are the \<open>uint16\<close> values
  of \<open>TIOCGWINSZ\<close>).
\<close>

record device =
  mode :: termios
  screen :: "(string \<times> int list) list"
  winch_notified :: bool
  openable :: bool
  get_errno :: nat
  set_errno :: nat
  winsize_errno :: nat
  cols :: nat
  rows :: nat

text \<open>
  \<open>type Terminal struct\<close>. A pointer field is \<open>None\<close> or \<open>False\<close> when
  \<open>nil\<close>; the field \<open>in\<close> is \<open>inp\<close> here. The device the files refer to is
  carried along as \<open>tty\<close>.
\<close>

record Terminal =
  inp :: bool
  inBuffer :: "reader option"
  out :: bool
  runes :: chan
  events :: chan
  running :: bool
  originalMode :: "termios option"
  sigwinch :: chan
  Width :: int
  Height :: int
  tty :: device

definition termClear :: string where
  "termClear = [CHR 0x1B] @ ''[H'' @ [CHR 0x1B] @ ''[J''"

definition termShowCursor :: string where
  "termShowCursor = [CHR 0x1B] @ ''[?25h''"

definition termSetCursorColumn :: string where
  "termSetCursorColumn = [CHR 0x1B] @ ''[%dG''"

text \<open>
  \<open>Puts\<close> is \<open>fmt.Fprintf(t.out, f, args...)\<close> with the result dropped;
  writing to a \<open>nil\<close> file fails and writes nothing.
\<close>

definition Puts :: "string \<Rightarrow> int list \<Rightarrow> Terminal \<Rightarrow> Terminal" where
  "Puts f args t =
    (if out t then t\<lparr>tty := (tty t)\<lparr>screen := screen (tty t) @ [(f, args)]\<rparr>\<rparr> else t)"

definition Clear :: "Terminal \<Rightarrow> Terminal" where
  "Clear t = Puts termClear [] t"

definition SetCursorColumn :: "int \<Rightarrow> Terminal \<Rightarrow> Terminal" where
  "SetCursorColumn x t = Puts termSetCursorColumn [x + 1] t"

definition NewTerminal :: "device \<Rightarrow> Terminal" where
  "NewTerminal d =
    \<lparr>inp = False, inBuffer = None, out = False, runes = NilChan, events = NilChan,
     running = False, originalMode = None, sigwinch = NilChan, Width = 0, Height = 0,
     tty = d\<rparr>"

text \<open>\<open>cloneMode\<close>: a fresh value with seven fields copied; \<open>Line\<close> stays zero.\<close>

definition cloneMode :: "termios \<Rightarrow> termios" where
  "cloneMode m =
    \<lparr>Iflag = Iflag m, Oflag = Oflag m, Cflag = Cflag m, Lflag = Lflag m, Line = 0,
     Cc = Cc m, Ispeed = Ispeed m, Ospeed = Ospeed m\<rparr>"

text \<open>Lines 179 to 183 of \<open>Start\<close>; \<open>x &^= y\<close> clears the bits of \<open>y\<close>.\<close>

definition rawMode :: "syscall_flags \<Rightarrow> termios \<Rightarrow> termios" where
  "rawMode K m0 =
    (let m1 = m0\<lparr>Iflag := and (Iflag m0)
                 (not (or (IGNBRK K) (or (BRKINT K) (or (PARMRK K) (or (ISTRIP K)
                   (or (INLCR K) (or (IGNCR K) (or (ICRNL K) (IXON K)))))))))\<rparr>;
         m2 = m1\<lparr>Oflag := and (Oflag m1) (not (OPOST K))\<rparr>;
         m3 = m2\<lparr>Cflag := or (Cflag m2) (CS8 K)\<rparr>;
         m4 = m3\<lparr>Cflag := and (Cflag m3) (not (or (CSIZE K) (PARENB K)))\<rparr>
     in m4\<lparr>Lflag := and (Lflag m4)
               (not (or (ECHO K) (or (ECHONL K) (or (ICANON K) (or (ISIG K) (IEXTEN K))))))\<rparr>)"

text \<open>
  \<open>Start\<close>, up to the two goroutines it launches. Each early \<open>return err\<close>
  keeps the assignments made so far; \<open>t.originalMode, err = fetchMode(fd)\<close>
  stores \<open>nil\<close> on failure, and \<open>windowSize\<close> stores \<open>-1, -1\<close>.
\<close>

definition Start :: "syscall_flags \<Rightarrow> Terminal \<Rightarrow> Terminal \<times> error option" where
  "Start K t =
    (if \<not> inp t \<and> \<not> openable (tty t) then (t, Some OpenError)
     else
       let t1 = t\<lparr>inp := True, inBuffer := Some FileReader\<rparr> in
       if \<not> out t1 \<and> \<not> openable (tty t1) then (t1, Some OpenError)
       else
         let t2 = t1\<lparr>out := True, running := True\<rparr> in
         if get_errno (tty t2) \<noteq> 0
         then (t2\<lparr>originalMode := None\<rparr>, Some (FetchModeError (get_errno (tty t2))))
         else
           let t3 = t2\<lparr>originalMode := Some (mode (tty t2))\<rparr> in
           if set_errno (tty t3) \<noteq> 0 then (t3, Some (SetModeError (set_errno (tty t3))))
           else
             let t4 = t3\<lparr>tty := (tty t3)\<lparr>mode := rawMode K (cloneMode (mode (tty t2)))\<rparr>\<rparr> in
             if winsize_errno (tty t4) \<noteq> 0
             then (t4\<lparr>Width := -1, Height := -1\<rparr>,
                   Some (WindowSizeError (winsize_errno (tty t4))))
             else
               (t4\<lparr>Width := int (cols (tty t4)), Height := int (rows (tty t4)),
                   sigwinch := OpenChan,
                   tty := (tty t4)\<lparr>winch_notified := True\<rparr>,
                   runes := OpenChan, events := OpenChan\<rparr>, None))"

text \<open>The builtin \<open>close(c)\<close>.\<close>

definition close :: "chan \<Rightarrow> panic + chan" where
  "close c =
    (case c of NilChan \<Rightarrow> Inl CloseOfNilChannel
     | ClosedChan \<Rightarrow> Inl CloseOfClosedChannel
     | OpenChan \<Rightarrow> Inr ClosedChan)"

text \<open>
  \<open>setMode\<close> as \<open>Stop\<close> calls it, its error dropped: the ioctl needs an open
  file and a mode to point at, and may fail with the device's errno.
\<close>

definition restoreMode :: "Terminal \<Rightarrow> Terminal" where
  "restoreMode t =
    (case originalMode t of
       None \<Rightarrow> t
     | Some m \<Rightarrow>
         if out t \<and> set_errno (tty t) = 0 then t\<lparr>tty := (tty t)\<lparr>mode := m\<rparr>\<rparr> else t)"

text \<open>
  \<open>Stop\<close>, statement by statement: the flag, the two \<open>close\<close> calls,
  \<open>signal.Reset\<close>, \<open>Puts\<close>, \<open>setMode\<close> and the reset of a non-\<open>nil\<close>
  \<open>inBuffer\<close>.
\<close>

definition Stop :: "Terminal \<Rightarrow> Terminal \<times> panic option" where
  "Stop t =
    (let t1 = t\<lparr>running := False\<rparr> in
     case close (runes t1) of
       Inl e \<Rightarrow> (t1, Some e)
     | Inr c1 \<Rightarrow>
         let t2 = t1\<lparr>runes := c1\<rparr> in
         (case close (events t2) of
            Inl e \<Rightarrow> (t2, Some e)
          | Inr c2 \<Rightarrow>
              let t3 = t2\<lparr>events := c2\<rparr>;
                  t4 = t3\<lparr>tty := (tty t3)\<lparr>winch_notified := False\<rparr>\<rparr>;
                  t5 = Puts termShowCursor [] t4;
                  t6 = restoreMode t5
              in (case inBuffer t6 of
                    None \<Rightarrow> (t6, Some NilDereference)
                  | Some b \<Rightarrow> (t6\<lparr>inBuffer := Some NopReader\<rparr>, None))))"

section \<open>The prompt and its history\<close>

text \<open>
  \<open>type Prompt struct\<close>, without the unused reader \<open>in\<close>. A completion
  callback is a function from the line to a slice of candidates, \<open>None\<close>
  for a \<open>nil\<close> slice; the field itself is \<open>None\<close> when no callback is set.
\<close>

record Prompt =
  history :: "string list"
  terminal :: Terminal
  completionFn :: "(string \<Rightarrow> string list option) option"

definition NewPrompt :: "device \<Rightarrow> Prompt" where
  "NewPrompt d = \<lparr>history = [], terminal = NewTerminal d, completionFn = None\<rparr>"

definition SetCompletionFn :: "(string \<Rightarrow> string list option) option \<Rightarrow> Prompt \<Rightarrow> Prompt" where
  "SetCompletionFn fn pm = pm\<lparr>completionFn := fn\<rparr>"

definition History :: "Prompt \<Rightarrow> string" where
  "History pm = Join (history pm) [CHR 0x0A]"

text \<open>
  The body of \<open>LoadHistory\<close>: \<open>for r := range history\<close> binds \<open>r\<close> to the
  byte index of each rune, so \<open>r == '\<newline>'\<close> compares the index with 10 and
  \<open>string(r)\<close> encodes the index. The loop runs over these indices with
  the buffer and the history slice.
\<close>

fun LoadHistory_loop :: "nat list \<Rightarrow> string \<Rightarrow> string list \<Rightarrow> string list" where
  "LoadHistory_loop [] buf h = h"
| "LoadHistory_loop (r # rs) buf h =
    (if int r = 10
     then LoadHistory_loop rs ([] @ string_of_rune (int r)) (h @ [buf])
     else LoadHistory_loop rs (buf @ string_of_rune (int r)) h)"

definition LoadHistory :: "string \<Rightarrow> Prompt \<Rightarrow> Prompt" where
  "LoadHistory text pm =
    pm\<lparr>history := LoadHistory_loop (map fst (range_string text 0)) [] (history pm)\<rparr>"

definition AppendHistory :: "string \<Rightarrow> Prompt \<Rightarrow> Prompt" where
  "AppendHistory ln pm = pm\<lparr>history := history pm @ [ln]\<rparr>"

section \<open>The line editor\<close>

text \<open>
  \<open>type promptState struct\<close>. The pointer \<open>p\<close> is the prompt the state
  works on; nothing else holds it during one \<open>Prompt\<close> call, so the prompt
  is a field. \<open>completionOptions\<close> is \<open>None\<close> for a \<open>nil\<close> slice.
\<close>

record promptState =
  p :: Prompt
  prompt :: string
  line :: string
  historyIndex :: int
  completionOptions :: "string list option"

text \<open>A method of the terminal applied through \<open>s.p.terminal\<close>.\<close>

definition on_terminal :: "(Terminal \<Rightarrow> Terminal) \<Rightarrow> promptState \<Rightarrow> promptState" where
  "on_terminal f s = s\<lparr>p := (p s)\<lparr>terminal := f (terminal (p s))\<rparr>\<rparr>"

text \<open>Sequencing: the next statement runs only when no panic is under way.\<close>

definition and_then ::
  "promptState \<times> panic option \<Rightarrow> (promptState \<Rightarrow> promptState \<times> panic option) \<Rightarrow>
   promptState \<times> panic option" where
  "and_then r f = (case snd r of None \<Rightarrow> f (fst r) | Some e \<Rightarrow> r)"

text \<open>
  \<open>Render\<close>. \<open>strings.Repeat\<close> panics on a negative count, and
  \<open>s.p.history[s.historyIndex]\<close> on an index outside the slice; both are
  evaluated before the \<open>Puts\<close> they feed.
\<close>

definition Render :: "promptState \<Rightarrow> promptState \<times> panic option" where
  "Render s =
    (let s1 = on_terminal (SetCursorColumn 0) s in
     if Width (terminal (p s1)) < 0 then (s1, Some NegativeRepeatCount)
     else
       let s2 = on_terminal (Puts (replicate (nat (Width (terminal (p s1)))) CHR '' '') []) s1;
           s3 = on_terminal (SetCursorColumn 0) s2
       in
       if historyIndex s3 = -1
       then (on_terminal (Puts (prompt s3 @ line s3) []) s3, None)
       else if 0 \<le> historyIndex s3 \<and> historyIndex s3 < int (length (history (p s3)))
       then (on_terminal (Puts (prompt s3 @ history (p s3) ! nat (historyIndex s3)) []) s3, None)
       else (s3, Some IndexOutOfRange))"

text \<open>The loop of \<open>RenderCompletionOptions\<close> over the options.\<close>

fun put_options :: "string list \<Rightarrow> Terminal \<Rightarrow> Terminal" where
  "put_options [] t = t"
| "put_options (opt # opts) t =
     put_options opts (SetCursorColumn 0 (Puts (opt @ [CHR 0x0A]) [] t))"

definition RenderCompletionOptions :: "promptState \<Rightarrow> promptState" where
  "RenderCompletionOptions s =
    on_terminal
      (\<lambda>t. put_options (case completionOptions s of None \<Rightarrow> [] | Some opts \<Rightarrow> opts)
              (SetCursorColumn 0 (Puts [CHR 0x0A] [] t)))
      s"

definition MaybeUseHistory :: "promptState \<Rightarrow> promptState \<times> panic option" where
  "MaybeUseHistory s =
    (if historyIndex s \<noteq> -1 then
       (if 0 \<le> historyIndex s \<and> historyIndex s < int (length (history (p s)))
        then (s\<lparr>line := history (p s) ! nat (historyIndex s), historyIndex := -1\<rparr>, None)
        else (s, Some IndexOutOfRange))
     else (s, None))"

definition Edit :: "(string \<Rightarrow> string) \<Rightarrow> promptState \<Rightarrow> promptState \<times> panic option" where
  "Edit cb s =
    and_then (MaybeUseHistory s)
      (\<lambda>s1. let s2 = s1\<lparr>completionOptions := None\<rparr>;
                 s3 = s2\<lparr>line := cb (line s2)\<rparr>
             in Render s3)"

definition HistoryPrevious :: "promptState \<Rightarrow> promptState \<times> panic option" where
  "HistoryPrevious s =
    Render
      (if historyIndex s = -1 then
         (if 0 < length (history (p s))
          then s\<lparr>historyIndex := int (length (history (p s))) - 1\<rparr>
          else s)
       else if 0 < historyIndex s then s\<lparr>historyIndex := historyIndex s - 1\<rparr>
       else s)"

definition HistoryNext :: "promptState \<Rightarrow> promptState \<times> panic option" where
  "HistoryNext s =
    Render
      (if historyIndex s = int (length (history (p s))) - 1 \<or> historyIndex s = -1
       then s\<lparr>historyIndex := -1\<rparr>
       else s\<lparr>historyIndex := historyIndex s + 1\<rparr>)"

text \<open>
  The inner loop of the common-root search, \<open>for i, c := range option\<close>,
  over the index and rune pairs of \<open>option\<close>. \<open>[]rune(bestOption)[i]\<close>
  indexes the runes of \<open>bestOption\<close> with the byte index \<open>i\<close> and panics
  when there are not that many runes. The result is the new \<open>bestOption\<close>.
\<close>

fun root_inner :: "(nat \<times> rune) list \<Rightarrow> string \<Rightarrow> string \<Rightarrow> panic + string" where
  "root_inner [] option bestOption = Inr bestOption"
| "root_inner ((i, c) # rest) option bestOption =
    (if length bestOption \<le> i then Inr bestOption
     else if length (to_runes bestOption) \<le> i then Inl IndexOutOfRange
     else if c \<noteq> to_runes bestOption ! i then Inr (take i option)
     else root_inner rest option bestOption)"

text \<open>The outer loop, \<open>for _, option := range s.completionOptions[1:]\<close>.\<close>

fun root_outer :: "string list \<Rightarrow> string \<Rightarrow> panic + string" where
  "root_outer [] bestOption = Inr bestOption"
| "root_outer (option # rest) bestOption =
    (case root_inner (range_string option 0) option bestOption of
       Inl e \<Rightarrow> Inl e
     | Inr b \<Rightarrow> root_outer rest b)"

text \<open>The common root of a non-empty slice of options, lines 220 to 231.\<close>

definition common_root :: "string list \<Rightarrow> panic + string" where
  "common_root opts = root_outer (tl opts) (hd opts)"

text \<open>
  \<open>CompleteSuggest\<close>. The callback is applied to \<open>s.line\<close> before
  \<open>MaybeUseHistory\<close> runs.
\<close>

definition CompleteSuggest :: "promptState \<Rightarrow> promptState \<times> panic option" where
  "CompleteSuggest s =
    (case completionFn (p s) of
       None \<Rightarrow> (s, None)
     | Some fn \<Rightarrow>
        (if completionOptions s \<noteq> None then Render (RenderCompletionOptions s)
         else
           let s1 = s\<lparr>completionOptions := fn (line s)\<rparr> in
           if completionOptions s1 = None \<or> length (the (completionOptions s1)) = 0
           then (s1\<lparr>completionOptions := None\<rparr>, None)
           else
             and_then (MaybeUseHistory s1)
               (\<lambda>s2. case common_root (the (completionOptions s2)) of
                        Inl e \<Rightarrow> (s2, Some e)
                      | Inr bestOption \<Rightarrow>
                          let s3 = (if 1 < length (the (completionOptions s2))
                                    then RenderCompletionOptions s2 else s2);
                              s4 = (if line s3 \<noteq> bestOption
                                    then s3\<lparr>completionOptions := None\<rparr> else s3);
                              s5 = s4\<lparr>line := bestOption\<rparr>
                          in Render s5)))"

text \<open>
  The effective line: the live buffer, or the history entry being browsed.
  The invariant of the history index: \<open>-1\<close> or a valid index.
\<close>

definition effective_line :: "promptState \<Rightarrow> string" where
  "effective_line s =
    (if historyIndex s = -1 then line s else history (p s) ! nat (historyIndex s))"

definition index_ok :: "promptState \<Rightarrow> bool" where
  "index_ok s =
    (historyIndex s = -1 \<or>
     (0 \<le> historyIndex s \<and> historyIndex s < int (length (history (p s)))))"

section \<open>The loop of Prompt\<close>

text \<open>What \<open>Prompt\<close> returns: one of its two errors, or the line.\<close>

datatype prompt_result = ErrorPromptAborted | ErrorPromptEnded | Line string

text \<open>
  The state \<open>Prompt\<close> builds before its loop: the terminal started (the
  error of \<open>Start\<close> is dropped), the prompt written, the buffer empty and
  the history index \<open>-1\<close>.
\<close>

definition Prompt_init :: "syscall_flags \<Rightarrow> string \<Rightarrow> Prompt \<Rightarrow> promptState" where
  "Prompt_init K pt pm =
    \<lparr>p = pm\<lparr>terminal := Puts pt [] (fst (Start K (terminal pm)))\<rparr>,
     prompt = pt, line = [], historyIndex = -1, completionOptions = None\<rparr>"

text \<open>
  One turn of the loop on the event received. The second component is the
  value returned when the turn leaves the loop, \<open>None\<close> when the loop goes
  on. Backspace cuts the last byte, \<open>line[:len(line)-1]\<close>.
\<close>

definition Prompt_step ::
  "Event \<Rightarrow> promptState \<Rightarrow> (promptState \<times> panic option) \<times> prompt_result option" where
  "Prompt_step ev s =
    (if Type ev = EventKey then
       (if Key ev = KeyCtrlC then ((s, None), Some ErrorPromptAborted)
        else if Key ev = KeyCtrlD then ((s, None), Some ErrorPromptEnded)
        else if Key ev = KeyCr then
          (let r = and_then (MaybeUseHistory s)
                     (\<lambda>s1. (on_terminal (SetCursorColumn 0)
                              (on_terminal (Puts [CHR 0x0A] []) s1), None))
           in (r, if snd r = None then Some (Line (line (fst r))) else None))
        else if Key ev = KeyBackspace then
          (and_then (MaybeUseHistory s)
             (\<lambda>s1. if 0 < length (line s1)
                    then Edit (\<lambda>ln. take (length ln - 1) ln) s1 else (s1, None)),
           None)
        else if Key ev = KeyTab then (CompleteSuggest s, None)
        else if Key ev = KeyUp then (HistoryPrevious s, None)
        else if Key ev = KeyDown then (HistoryNext s, None)
        else if Key ev = KeyCtrlU then (Edit (\<lambda>ln. []) s, None)
        else if Key ev = KeyCtrlL then (Render (on_terminal Clear s), None)
        else if Key ev = KeyRune then (Edit (\<lambda>ln. ln @ string_of_rune (Rune ev)) s, None)
        else ((s, None), None))
     else ((s, None), None))"

text \<open>
  The loop over the events delivered so far: it stops at a panic or at a
  returned value, and otherwise waits in the state reached.
\<close>

fun Prompt_loop ::
  "Event list \<Rightarrow> promptState \<Rightarrow> (promptState \<times> panic option) \<times> prompt_result option" where
  "Prompt_loop [] s = ((s, None), None)"
| "Prompt_loop (ev # evs) s =
    (let r = Prompt_step ev s in
     if snd (fst r) \<noteq> None \<or> snd r \<noteq> None then r
     else Prompt_loop evs (fst (fst r)))"

section \<open>Sample values\<close>

text \<open>
  Values to run the definitions on: the flag constants as package
  \<open>syscall\<close> gives them on Linux, a terminal device in its usual cooked
  mode, 80 columns by 24 rows, whose system calls succeed, and a prompt on
  that device with the history \<open>a\<close>, \<open>b\<close>, \<open>c\<close>.
\<close>

definition linux_flags :: syscall_flags where
  "linux_flags =
    \<lparr>IGNBRK = 0x1, BRKINT = 0x2, PARMRK = 0x8, ISTRIP = 0x20, INLCR = 0x40, IGNCR = 0x80,
     ICRNL = 0x100, IXON = 0x400, OPOST = 0x1, CS8 = 0x30, CSIZE = 0x30, PARENB = 0x100,
     ECHO = 0x8, ECHONL = 0x40, ICANON = 0x2, ISIG = 0x1, IEXTEN = 0x8000\<rparr>"

definition cooked :: termios where
  "cooked =
    \<lparr>Iflag = 0x4500, Oflag = 0x5, Cflag = 0xBF, Lflag = 0x8A3B, Line = 0,
     Cc = [3, 28, 127, 21, 4, 0, 1, 0], Ispeed = 15, Ospeed = 15\<rparr>"

definition sample_tty :: device where
  "sample_tty =
    \<lparr>mode = cooked, screen = [], winch_notified = False, openable = True,
     get_errno = 0, set_errno = 0, winsize_errno = 0, cols = 80, rows = 24\<rparr>"

definition abc_prompt :: Prompt where
  "abc_prompt = AppendHistory ''c'' (AppendHistory ''b'' (AppendHistory ''a'' (NewPrompt sample_tty)))"

text \<open>The state \<open>Prompt\<close> starts from on that prompt, with the prompt text \<open>$\<close>.\<close>

definition abc_live :: promptState where
  "abc_live = Prompt_init linux_flags ''$'' abc_prompt"

section \<open>Observations and sample states\<close>

text \<open>What has been written to the device through the prompt's terminal.\<close>

definition shown :: "promptState \<Rightarrow> (string \<times> int list) list" where
  "shown s = screen (tty (terminal (p s)))"

text \<open>What one \<open>Render\<close> writes, and what \<open>RenderCompletionOptions\<close> writes.\<close>

definition render_writes :: "promptState \<Rightarrow> (string \<times> int list) list" where
  "render_writes s =
    [(termSetCursorColumn, [1]),
     (replicate (nat (Width (terminal (p s)))) CHR '' '', []),
     (termSetCursorColumn, [1]),
     (prompt s @ effective_line s, [])]"

definition option_writes :: "string list \<Rightarrow> (string \<times> int list) list" where
  "option_writes opts =
    [([CHR 0x0A], []), (termSetCursorColumn, [1])] @
    concat (map (\<lambda>opt. [(opt @ [CHR 0x0A], []), (termSetCursorColumn, [1])]) opts)"

text \<open>
  The sample state with a completion callback set, the buffer \<open>ln\<close> and
  the history index \<open>i\<close>.
\<close>

definition tab_state :: "(string \<Rightarrow> string list option) \<Rightarrow> string \<Rightarrow> int \<Rightarrow> promptState" where
  "tab_state fn ln i =
    abc_live\<lparr>p := SetCompletionFn (Some fn) (p abc_live), line := ln, historyIndex := i\<rparr>"

section \<open>Rules for evaluating the definitions\<close>

lemmas Key_defs =
  KeyCtrlC_def KeyCtrlD_def KeyCtrlL_def KeyCtrlU_def
  KeyTab_def KeyCr_def KeyEsc_def KeyBackspace_def KeyRune_def KeyUnknown_def
  KeyLeft_def KeyRight_def KeyUp_def KeyDown_def KeyHome_def KeyEnd_def
  KeyDel_def KeyPageUp_def KeyPageDown_def KeyShiftTab_def

lemmas decode_eval =
  decode_window_def readEvents_loop.simps key2_def key3_def slice_def runes_of_def Key_defs

lemmas go_string_eval =
  range_string.simps to_runes_def string_of_rune_def EncodeRune_def RuneError_def
  char_of_def bit_iff_odd Let_def

lemmas terminal_eval =
  Start_def Stop_def NewTerminal_def sample_tty_def close_def restoreMode_def Puts_def Let_def

section \<open>Properties of the decoder\<close>

subsection \<open>Facts about the decode loop\<close>

text \<open>The loop only looks forward: a prefix before the start index is irrelevant.\<close>

lemma readEvents_loop_shift:
  "readEvents_loop (pre @ seq) (length pre + i) = readEvents_loop seq i"
proof (induction seq i rule: readEvents_loop.induct)
  case (1 seq i)
  note L = readEvents_loop.simps[of "pre @ seq" "length pre + i"]
  note R = readEvents_loop.simps[of seq i]
  have sl: "\<And>a b. a \<le> b \<Longrightarrow> slice (pre @ seq) (length pre + a) (length pre + b) = slice seq a b"
    by (simp add: slice_def)
  show ?case
  proof (cases "i < length seq")
    case False
    then show ?thesis by (simp add: L R)
  next
    case True
    have n: "(pre @ seq) ! (length pre + i) = seq ! i" by (simp add: nth_append)
    have s3: "slice (pre @ seq) (length pre + i + 1) (length pre + i + 3) = slice seq (i + 1) (i + 3)"
      using sl[of "i + 1" "i + 3"] by (simp add: add.assoc)
    have s4: "slice (pre @ seq) (length pre + i + 1) (length pre + i + 4) = slice seq (i + 1) (i + 4)"
      using sl[of "i + 1" "i + 4"] by (simp add: add.assoc)
    have d: "length (drop (length pre + i + 1) (pre @ seq)) = length (drop (i + 1) seq)"
      by simp
    show ?thesis
      unfolding L R n s3 s4 d Let_def
      using True 1 by (auto simp: add.assoc)
  qed
qed

lemma readEvents_loop_drop:
  "i \<le> length seq \<Longrightarrow> readEvents_loop seq i = decode_window (drop i seq)"
  using readEvents_loop_shift[of "take i seq" "drop i seq" 0]
  by (simp add: decode_window_def min_absorb2)

lemma no_sequence_from_step:
  "i < length seq \<Longrightarrow> no_sequence_from seq i \<Longrightarrow>
   (seq ! i = KeyEsc \<longrightarrow> \<not> recognized_at seq i) \<and> no_sequence_from seq (Suc i)"
  by (simp add: no_sequence_from_def upt_conv_Cons)

lemma readEvents_loop_literal:
  "no_sequence_from seq i \<Longrightarrow> readEvents_loop seq i = map literal_event (drop i seq)"
proof (induction seq i rule: readEvents_loop.induct)
  case (1 seq i)
  show ?case
  proof (cases "i < length seq")
    case False
    then show ?thesis by (simp add: readEvents_loop.simps[of seq i])
  next
    case True
    from no_sequence_from_step[OF True "1.prems"]
    have nr: "seq ! i = KeyEsc \<longrightarrow> \<not> recognized_at seq i"
      and nx: "no_sequence_from seq (Suc i)" by simp_all
    have d: "drop i seq = seq ! i # drop (Suc i) seq"
      using True by (simp add: Cons_nth_drop_Suc)
    show ?thesis
    proof (cases "seq ! i = KeyEsc")
      case True
      with nr have "\<not> recognized_at seq i" by simp
      then have a: "\<not> (2 \<le> length (drop (i + 1) seq) \<and> key2 (slice seq (i + 1) (i + 3)) \<noteq> KeyUnknown)"
        and b: "\<not> (3 \<le> length (drop (i + 1) seq) \<and> key3 (slice seq (i + 1) (i + 4)) \<noteq> KeyUnknown)"
        by (auto simp: recognized_at_def)
      have ih: "readEvents_loop seq (i + 1) = map literal_event (drop (i + 1) seq)"
        using "1.IH"(3)[OF \<open>i < length seq\<close> refl True a b] nx by simp
      have "readEvents_loop seq i = rune_event KeyEsc # readEvents_loop seq (i + 1)"
        using \<open>i < length seq\<close> True a b by (subst readEvents_loop.simps) (auto simp: Let_def)
      then show ?thesis using ih d True by (simp add: literal_event_def KeyEsc_def)
    next
      case False
      show ?thesis
      proof (cases "seq ! i < 27 \<or> seq ! i = 127")
        case c: True
        have ih: "readEvents_loop seq (i + 1) = map literal_event (drop (i + 1) seq)"
          using "1.IH"(4)[OF \<open>i < length seq\<close> refl False c] nx by simp
        have "readEvents_loop seq i = key_event (seq ! i) # readEvents_loop seq (i + 1)"
          using \<open>i < length seq\<close> False c by (subst readEvents_loop.simps) (simp add: Let_def)
        then show ?thesis using ih d c by (simp add: literal_event_def)
      next
        case c: False
        have ih: "readEvents_loop seq (i + 1) = map literal_event (drop (i + 1) seq)"
          using "1.IH"(5)[OF \<open>i < length seq\<close> refl False c] nx by simp
        have "readEvents_loop seq i = rune_event (seq ! i) # readEvents_loop seq (i + 1)"
          using \<open>i < length seq\<close> False c by (subst readEvents_loop.simps) (simp add: Let_def)
        then show ?thesis using ih d c by (simp add: literal_event_def)
      qed
    qed
  qed
qed

lemma unrecognized_escape_head:
  "\<not> recognized_at (KeyEsc # rest) 0 \<Longrightarrow>
   decode_window (KeyEsc # rest) = rune_event KeyEsc # decode_window rest"
proof -
  assume n: "\<not> recognized_at (KeyEsc # rest) 0"
  have "readEvents_loop (KeyEsc # rest) 0 = rune_event KeyEsc # readEvents_loop (KeyEsc # rest) (0 + 1)"
    using n by (subst readEvents_loop.simps) (auto simp: recognized_at_def Let_def)
  moreover have "readEvents_loop (KeyEsc # rest) (0 + 1) = decode_window rest"
    using readEvents_loop_shift[of "[KeyEsc]" rest 0] by (simp add: decode_window_def)
  ultimately show ?thesis by (simp add: decode_window_def)
qed

subsection \<open>Claims about the decoder\<close>

text \<open>
  C1. The claim: the source runes of the emitted events, concatenated, are
  the input, none dropped. The loop advances by 4 after a recognized
  two-rune suffix and by 5 after a three-rune suffix, one more than the
  escape and its suffix occupy, so the rune that follows a recognized
  sequence in the same window produces no event at all: whatever \<open>x\<close> and
  \<open>rest\<close> are, \<open>x\<close> is skipped, and a window \<open>ESC [ A x\<close> yields the single
  event Up.
\<close>

theorem readEvents_skips_rune_after_sequence:
  "decode_window (KeyEsc # runes_of ''[A'' @ x # rest) = key_event KeyUp # decode_window rest \<and>
   decode_window (KeyEsc # runes_of ''[3~'' @ x # rest) = key_event KeyDel # decode_window rest \<and>
   decode_window (KeyEsc # runes_of ''[Ax'') = [key_event KeyUp]"
proof -
  have a: "readEvents_loop (KeyEsc # runes_of ''[A'' @ x # rest) 0 =
           key_event KeyUp # readEvents_loop (KeyEsc # runes_of ''[A'' @ x # rest) (0 + 4)"
    by (subst readEvents_loop.simps)
       (simp add: key2_def key3_def slice_def runes_of_def Key_defs)
  have a': "readEvents_loop (KeyEsc # runes_of ''[A'' @ x # rest) (0 + 4) = decode_window rest"
    using readEvents_loop_shift[of "KeyEsc # runes_of ''[A'' @ [x]" rest 0]
    by (simp add: decode_window_def runes_of_def eval_nat_numeral)
  have b: "readEvents_loop (KeyEsc # runes_of ''[3~'' @ x # rest) 0 =
           key_event KeyDel # readEvents_loop (KeyEsc # runes_of ''[3~'' @ x # rest) (0 + 5)"
    by (subst readEvents_loop.simps)
       (simp add: key2_def key3_def slice_def runes_of_def Key_defs)
  have b': "readEvents_loop (KeyEsc # runes_of ''[3~'' @ x # rest) (0 + 5) = decode_window rest"
    using readEvents_loop_shift[of "KeyEsc # runes_of ''[3~'' @ [x]" rest 0]
    by (simp add: decode_window_def runes_of_def eval_nat_numeral)
  have c: "decode_window (KeyEsc # runes_of ''[Ax'') = [key_event KeyUp]"
    by (simp add: decode_eval)
  from a a' b b' c show ?thesis by (simp add: decode_window_def)
qed

text \<open>
  C2, as the claim states it: a lone escape would decode to the Escape key
  event, the key event whose key code is \<open>KeyEsc\<close>. The loop sends the
  escape down the \<open>normal\<close> label instead.
\<close>

theorem lone_escape_is_not_KeyEsc:
  "decode_window [KeyEsc] \<noteq> [key_event KeyEsc]"
  by (simp add: decode_eval key_event_def rune_event_def)

text \<open>
  C2, amended. A window holding the escape and \<open>[A\<close>, \<open>[B\<close>, \<open>[C\<close> or \<open>[D\<close>
  decodes to exactly the one key event Up, Down, Right or Left. A window
  holding the escape alone decodes to exactly one event of type
  \<open>EventKey\<close> whose key code is \<open>KeyRune\<close> and whose rune is the escape
  (27).
\<close>

theorem arrows_and_lone_escape:
  "decode_window (KeyEsc # runes_of ''[A'') = [key_event KeyUp] \<and>
   decode_window (KeyEsc # runes_of ''[B'') = [key_event KeyDown] \<and>
   decode_window (KeyEsc # runes_of ''[C'') = [key_event KeyRight] \<and>
   decode_window (KeyEsc # runes_of ''[D'') = [key_event KeyLeft] \<and>
   decode_window [KeyEsc] = [\<lparr>Type = EventKey, Key = KeyRune, Rune = 27\<rparr>]"
  by (simp add: decode_eval key_event_def rune_event_def)

text \<open>
  C8, as the claim states it: after an escape whose suffix matches no
  pattern, every remaining rune of the window would be emitted as an
  ordinary rune or control-key event. In the window \<open>ESC ESC [ A\<close> the
  first escape has an unrecognized suffix, and the remaining runes
  \<open>ESC [ A\<close> are decoded to the single key event Up.
\<close>

theorem later_sequence_is_still_decoded:
  "\<not> recognized_at (KeyEsc # KeyEsc # runes_of ''[A'') 0 \<and>
   decode_window (KeyEsc # KeyEsc # runes_of ''[A'') = [rune_event KeyEsc, key_event KeyUp] \<and>
   decode_window (KeyEsc # KeyEsc # runes_of ''[A'') \<noteq>
     rune_event KeyEsc # map literal_event (KeyEsc # runes_of ''[A'')"
  by (simp add: decode_eval recognized_at_def literal_event_def key_event_def rune_event_def)

text \<open>
  C8, amended. When the suffix of an escape at the head of a window
  matches no two-rune and no three-rune pattern, the decoder emits the
  escape as its own event (type \<open>EventKey\<close>, key code \<open>KeyRune\<close>, rune 27)
  and goes on to decode the remaining runes as a window of their own; when
  no escape among them starts a recognized suffix, each remaining rune
  yields exactly one event, in order: a control-key event for a rune below
  27 or equal to 127, a rune event otherwise. The loop is total, so no
  fault arises.
\<close>

theorem unrecognized_escape_degrades:
  assumes "\<not> recognized_at (KeyEsc # rest) 0"
  shows "decode_window (KeyEsc # rest) = rune_event KeyEsc # decode_window rest \<and>
         (no_sequence_from rest 0 \<longrightarrow> decode_window rest = map literal_event rest)"
proof
  show "decode_window (KeyEsc # rest) = rune_event KeyEsc # decode_window rest"
    using assms by (rule unrecognized_escape_head)
  show "no_sequence_from rest 0 \<longrightarrow> decode_window rest = map literal_event rest"
    using readEvents_loop_literal[of rest 0] by (simp add: decode_window_def)
qed

theorem unrecognized_escape_degrades_witness:
  "\<not> recognized_at (KeyEsc # runes_of ''[x'') 0 \<and>
   no_sequence_from (runes_of ''[x'') 0 \<and>
   decode_window (KeyEsc # runes_of ''[x'') = [rune_event KeyEsc, rune_event 91, rune_event 120]"
proof -
  have h: "\<not> recognized_at (KeyEsc # runes_of ''[x'') 0"
    by (simp add: recognized_at_def decode_eval)
  have n: "no_sequence_from (runes_of ''[x'') 0"
    by (simp add: no_sequence_from_def recognized_at_def decode_eval upt_conv_Cons)
  from unrecognized_escape_degrades[OF h] n
  have "decode_window (KeyEsc # runes_of ''[x'') =
        rune_event KeyEsc # map literal_event (runes_of ''[x'')"
    by simp
  then show ?thesis using h n by (simp add: literal_event_def runes_of_def)
qed

section \<open>Properties of the history and the terminal\<close>

lemma Start_ok:
  assumes "Start K t = (t1, None)"
  shows "inp t1 \<and> out t1 \<and> inBuffer t1 = Some FileReader \<and> runes t1 = OpenChan \<and>
         events t1 = OpenChan \<and> running t1 \<and> originalMode t1 = Some (mode (tty t)) \<and>
         set_errno (tty t1) = 0"
  using assms by (auto simp: Start_def Let_def split: if_splits)

text \<open>
  C3. The claim: \<open>LoadHistory(s)\<close> replaces the history with the lines of
  \<open>s\<close>, and \<open>LoadHistory(p.History())\<close> leaves the history and its export
  as they were. The loop of \<open>LoadHistory\<close> ranges over the byte indices of
  its argument, not over its runes, and never clears \<open>p.history\<close>: loading
  the two lines \<open>a\<close> and \<open>b\<close> leaves any history as it was; loading a text
  of more than ten bytes appends one entry made of the bytes 0 to 9; and
  for the history holding the one line \<open>0123456789ab\<close>, loading its own
  export changes the export.
\<close>

theorem LoadHistory_does_not_load:
  "history (LoadHistory (''a'' @ [CHR 0x0A] @ ''b'') pm) = history pm \<and>
   history (LoadHistory ''0123456789ab'' (pm\<lparr>history := [''x'']\<rparr>)) =
     [''x'', [CHR 0x00, CHR 0x01, CHR 0x02, CHR 0x03, CHR 0x04,
              CHR 0x05, CHR 0x06, CHR 0x07, CHR 0x08, CHR 0x09]] \<and>
   History (LoadHistory (History (pm\<lparr>history := [''0123456789ab'']\<rparr>))
                        (pm\<lparr>history := [''0123456789ab'']\<rparr>))
     \<noteq> History (pm\<lparr>history := [''0123456789ab'']\<rparr>)"
  by (simp add: LoadHistory_def History_def go_string_eval)

text \<open>
  C9, as the claim states it: after a successful \<open>Start\<close>, a second \<open>Stop\<close>
  would succeed without fault. On the sample device \<open>Start\<close> and the first
  \<open>Stop\<close> succeed, and the second \<open>Stop\<close> panics when it closes the
  channel the first one closed.
\<close>

theorem second_Stop_panics:
  "snd (Start linux_flags (NewTerminal sample_tty)) = None \<and>
   snd (Stop (fst (Start linux_flags (NewTerminal sample_tty)))) = None \<and>
   snd (Stop (fst (Stop (fst (Start linux_flags (NewTerminal sample_tty)))))) =
     Some CloseOfClosedChannel"
  by (simp add: terminal_eval)

text \<open>
  C9, amended. For every terminal on which \<open>Start\<close> succeeded, the first
  \<open>Stop\<close> returns without a panic and leaves the device with the mode it
  had before \<open>Start\<close>; a second \<open>Stop\<close> on the state it leaves changes
  nothing and panics on closing the closed channel. \<open>Stop\<close> is safe once
  per successful \<open>Start\<close>, not twice.
\<close>

theorem Stop_once:
  assumes "Start K t = (t1, None)"
  shows "\<exists>t2. Stop t1 = (t2, None) \<and> mode (tty t2) = mode (tty t) \<and>
              Stop t2 = (t2, Some CloseOfClosedChannel)"
proof -
  from Start_ok[OF assms] have
    a: "out t1" "inBuffer t1 = Some FileReader" "runes t1 = OpenChan" "events t1 = OpenChan"
       "originalMode t1 = Some (mode (tty t))" "set_errno (tty t1) = 0"
    by simp_all
  define t2 where "t2 = fst (Stop t1)"
  have s: "Stop t1 = (t2, None)"
    unfolding t2_def using a by (simp add: Stop_def close_def restoreMode_def Puts_def Let_def)
  have m: "mode (tty t2) = mode (tty t)"
    unfolding t2_def using a by (simp add: Stop_def close_def restoreMode_def Puts_def Let_def)
  have r: "runes t2 = ClosedChan" "running t2 = False"
    unfolding t2_def using a by (simp_all add: Stop_def close_def restoreMode_def Puts_def Let_def)
  have "Stop t2 = (t2, Some CloseOfClosedChannel)"
    using r by (simp add: Stop_def close_def Let_def)
  with s m show ?thesis by blast
qed

theorem Stop_once_witness:
  "Start linux_flags (NewTerminal sample_tty) =
     (fst (Start linux_flags (NewTerminal sample_tty)), None) \<and>
   (\<exists>t2. Stop (fst (Start linux_flags (NewTerminal sample_tty))) = (t2, None) \<and>
         mode (tty t2) = cooked \<and> Stop t2 = (t2, Some CloseOfClosedChannel))"
proof -
  have h: "Start linux_flags (NewTerminal sample_tty) =
             (fst (Start linux_flags (NewTerminal sample_tty)), None)"
    by (simp add: terminal_eval)
  have c: "mode (tty (NewTerminal sample_tty)) = cooked"
    by (simp add: NewTerminal_def sample_tty_def)
  from Stop_once[OF h] c h show ?thesis by simp
qed

section \<open>Properties of the line editor\<close>

subsection \<open>Facts about the editor operations\<close>

lemma on_terminal_fields [simp]:
  "historyIndex (on_terminal f s) = historyIndex s"
  "line (on_terminal f s) = line s"
  "prompt (on_terminal f s) = prompt s"
  "completionOptions (on_terminal f s) = completionOptions s"
  "history (p (on_terminal f s)) = history (p s)"
  "completionFn (p (on_terminal f s)) = completionFn (p s)"
  "terminal (p (on_terminal f s)) = f (terminal (p s))"
  by (simp_all add: on_terminal_def)

lemma Puts_Width [simp]: "Width (Puts f args t) = Width t"
  by (simp add: Puts_def)

lemma SetCursorColumn_Width [simp]: "Width (SetCursorColumn x t) = Width t"
  by (simp add: SetCursorColumn_def)

lemma put_options_Width [simp]: "Width (put_options opts t) = Width t"
  by (induction opts arbitrary: t) simp_all

lemma Render_fields [simp]:
  "historyIndex (fst (Render s)) = historyIndex s"
  "line (fst (Render s)) = line s"
  "prompt (fst (Render s)) = prompt s"
  "completionOptions (fst (Render s)) = completionOptions s"
  "history (p (fst (Render s))) = history (p s)"
  "completionFn (p (fst (Render s))) = completionFn (p s)"
  "Width (terminal (p (fst (Render s)))) = Width (terminal (p s))"
  by (simp_all add: Render_def Let_def)

lemma Render_panic:
  "snd (Render s) =
    (if Width (terminal (p s)) < 0 then Some NegativeRepeatCount
     else if index_ok s then None else Some IndexOutOfRange)"
  by (auto simp: Render_def Let_def index_ok_def)

lemma RenderCompletionOptions_fields [simp]:
  "historyIndex (RenderCompletionOptions s) = historyIndex s"
  "line (RenderCompletionOptions s) = line s"
  "prompt (RenderCompletionOptions s) = prompt s"
  "completionOptions (RenderCompletionOptions s) = completionOptions s"
  "history (p (RenderCompletionOptions s)) = history (p s)"
  "completionFn (p (RenderCompletionOptions s)) = completionFn (p s)"
  "Width (terminal (p (RenderCompletionOptions s))) = Width (terminal (p s))"
  by (simp_all add: RenderCompletionOptions_def)

lemma MaybeUseHistory_ok:
  "index_ok s \<Longrightarrow>
   snd (MaybeUseHistory s) = None \<and> historyIndex (fst (MaybeUseHistory s)) = -1 \<and>
   line (fst (MaybeUseHistory s)) = effective_line s \<and>
   history (p (fst (MaybeUseHistory s))) = history (p s) \<and>
   completionOptions (fst (MaybeUseHistory s)) = completionOptions s \<and>
   completionFn (p (fst (MaybeUseHistory s))) = completionFn (p s) \<and>
   terminal (p (fst (MaybeUseHistory s))) = terminal (p s) \<and>
   prompt (fst (MaybeUseHistory s)) = prompt s"
  by (auto simp: MaybeUseHistory_def index_ok_def effective_line_def)

lemma index_ok_live: "historyIndex s = -1 \<Longrightarrow> index_ok s"
  by (simp add: index_ok_def)

lemma index_ok_cong:
  "historyIndex s' = historyIndex s \<Longrightarrow> history (p s') = history (p s) \<Longrightarrow>
   index_ok s' = index_ok s"
  by (simp add: index_ok_def)

lemma HistoryPrevious_index:
  "historyIndex (fst (HistoryPrevious s)) =
    (if historyIndex s = -1 then
       (if history (p s) \<noteq> [] then int (length (history (p s))) - 1 else -1)
     else if 0 < historyIndex s then historyIndex s - 1 else historyIndex s)"
  by (simp add: HistoryPrevious_def)

lemma HistoryNext_index:
  "historyIndex (fst (HistoryNext s)) =
    (if historyIndex s = int (length (history (p s))) - 1 \<or> historyIndex s = -1 then -1
     else historyIndex s + 1)"
  by (simp add: HistoryNext_def)

lemma History_moves_frame:
  "history (p (fst (HistoryPrevious s))) = history (p s) \<and>
   line (fst (HistoryPrevious s)) = line s \<and>
   completionOptions (fst (HistoryPrevious s)) = completionOptions s \<and>
   Width (terminal (p (fst (HistoryPrevious s)))) = Width (terminal (p s)) \<and>
   history (p (fst (HistoryNext s))) = history (p s) \<and>
   line (fst (HistoryNext s)) = line s \<and>
   completionOptions (fst (HistoryNext s)) = completionOptions s \<and>
   Width (terminal (p (fst (HistoryNext s)))) = Width (terminal (p s))"
  by (simp add: HistoryPrevious_def HistoryNext_def)

lemma HistoryPrevious_ok: "index_ok s \<Longrightarrow> index_ok (fst (HistoryPrevious s))"
  unfolding index_ok_def HistoryPrevious_index
  by (auto simp: History_moves_frame)

lemma HistoryNext_ok: "index_ok s \<Longrightarrow> index_ok (fst (HistoryNext s))"
  unfolding index_ok_def HistoryNext_index
  by (auto simp: History_moves_frame)

lemma HistoryPrevious_panic:
  "index_ok s \<Longrightarrow> snd (HistoryPrevious s) = (if Width (terminal (p s)) < 0 then Some NegativeRepeatCount else None)"
  using HistoryPrevious_ok[of s]
  by (simp add: Render_panic HistoryPrevious_def index_ok_def)

lemma HistoryNext_panic:
  "index_ok s \<Longrightarrow> snd (HistoryNext s) = (if Width (terminal (p s)) < 0 then Some NegativeRepeatCount else None)"
  using HistoryNext_ok[of s]
  by (simp add: Render_panic HistoryNext_def index_ok_def)

lemma and_then_simps [simp]:
  "and_then (s, None) f = f s"
  "and_then (s, Some e) f = (s, Some e)"
  by (simp_all add: and_then_def)

lemma and_then_ok:
  "snd r = None \<Longrightarrow> and_then r f = f (fst r)"
  by (simp add: and_then_def)

lemma Edit_ok:
  assumes "index_ok s"
  shows "historyIndex (fst (Edit cb s)) = -1 \<and> history (p (fst (Edit cb s))) = history (p s) \<and>
         line (fst (Edit cb s)) = cb (effective_line s) \<and>
         completionOptions (fst (Edit cb s)) = None \<and>
         snd (Edit cb s) = (if Width (terminal (p s)) < 0 then Some NegativeRepeatCount else None)"
  using MaybeUseHistory_ok[OF assms]
  by (simp add: Edit_def and_then_ok Let_def Render_panic index_ok_def)

lemma CompleteSuggest_fresh:
  assumes fn: "completionFn (p s) = Some fn"
    and nc: "completionOptions s = None"
    and opts: "fn (line s) = Some opts" "opts \<noteq> []"
    and ok: "index_ok s"
  shows "\<exists>s2. historyIndex s2 = -1 \<and> line s2 = effective_line s \<and>
              history (p s2) = history (p s) \<and>
              completionOptions s2 = Some opts \<and>
              terminal (p s2) = terminal (p s) \<and>
              completionFn (p s2) = completionFn (p s) \<and>
              prompt s2 = prompt s \<and>
              CompleteSuggest s =
                (case common_root opts of
                   Inl e \<Rightarrow> (s2, Some e)
                 | Inr bestOption \<Rightarrow>
                     Render
                       ((if line s2 \<noteq> bestOption
                         then (if 1 < length opts then RenderCompletionOptions s2 else s2)
                                \<lparr>completionOptions := None\<rparr>
                         else (if 1 < length opts then RenderCompletionOptions s2 else s2))
                        \<lparr>line := bestOption\<rparr>))"
proof -
  define s1 where "s1 = s\<lparr>completionOptions := fn (line s)\<rparr>"
  define s2 where "s2 = fst (MaybeUseHistory s1)"
  have ok1: "index_ok s1" using ok by (simp add: s1_def index_ok_def)
  have e1: "effective_line s1 = effective_line s" by (simp add: s1_def effective_line_def)
  from MaybeUseHistory_ok[OF ok1]
  have m: "MaybeUseHistory s1 = (s2, None)" "historyIndex s2 = -1"
    "line s2 = effective_line s" "history (p s2) = history (p s)"
    "completionOptions s2 = Some opts" "terminal (p s2) = terminal (p s)"
    "completionFn (p s2) = completionFn (p s)" "prompt s2 = prompt s"
    using opts e1 by (simp_all add: s2_def s1_def prod_eq_iff)
  have c1: "completionOptions s1 = Some opts" using opts by (simp add: s1_def)
  have "CompleteSuggest s =
      and_then (MaybeUseHistory s1)
               (\<lambda>s2. case common_root (the (completionOptions s2)) of
                        Inl e \<Rightarrow> (s2, Some e)
                      | Inr bestOption \<Rightarrow>
                          let s3 = (if 1 < length (the (completionOptions s2))
                                    then RenderCompletionOptions s2 else s2);
                              s4 = (if line s3 \<noteq> bestOption
                                    then s3\<lparr>completionOptions := None\<rparr> else s3);
                              s5 = s4\<lparr>line := bestOption\<rparr>
                          in Render s5)"
    unfolding CompleteSuggest_def using fn nc c1 opts(2)
    by (simp add: s1_def[symmetric] Let_def del: and_then_simps)
  also have "\<dots> = (case common_root opts of
                   Inl e \<Rightarrow> (s2, Some e)
                 | Inr bestOption \<Rightarrow>
                     Render
                       ((if line s2 \<noteq> bestOption
                         then (if 1 < length opts then RenderCompletionOptions s2 else s2)
                                \<lparr>completionOptions := None\<rparr>
                         else (if 1 < length opts then RenderCompletionOptions s2 else s2))
                        \<lparr>line := bestOption\<rparr>))"
    unfolding m(1) by (simp add: m(5) Let_def split: sum.splits)
  finally show ?thesis using m(2-8) by blast
qed

lemma CompleteSuggest_frame:
  assumes "index_ok s"
  shows "index_ok (fst (CompleteSuggest s)) \<and>
         history (p (fst (CompleteSuggest s))) = history (p s)"
proof (cases "completionFn (p s)")
  case None
  then show ?thesis using assms by (simp add: CompleteSuggest_def)
next
  case (Some fn)
  show ?thesis
  proof (cases "completionOptions s \<noteq> None")
    case True
    then show ?thesis using assms Some
      by (simp add: CompleteSuggest_def index_ok_def)
  next
    case False
    show ?thesis
    proof (cases "fn (line s) = None \<or> the (fn (line s)) = []")
      case True
      then show ?thesis using assms Some False
        by (auto simp: CompleteSuggest_def index_ok_def Let_def)
    next
      case nz: False
      then obtain opts where o: "fn (line s) = Some opts" "opts \<noteq> []" by auto
      from CompleteSuggest_fresh[OF Some _ o assms] False
      obtain s2 where s2: "historyIndex s2 = -1" "history (p s2) = history (p s)"
        "CompleteSuggest s =
                (case common_root opts of
                   Inl e \<Rightarrow> (s2, Some e)
                 | Inr bestOption \<Rightarrow>
                     Render
                       ((if line s2 \<noteq> bestOption
                         then (if 1 < length opts then RenderCompletionOptions s2 else s2)
                                \<lparr>completionOptions := None\<rparr>
                         else (if 1 < length opts then RenderCompletionOptions s2 else s2))
                        \<lparr>line := bestOption\<rparr>))"
        by auto
      show ?thesis unfolding s2(3) using s2(1,2)
        by (auto simp: index_ok_def split: sum.splits)
    qed
  qed
qed

lemma Prompt_step_ok:
  assumes "index_ok s"
  shows "index_ok (fst (fst (Prompt_step ev s))) \<and>
         history (p (fst (fst (Prompt_step ev s)))) = history (p s)"
proof -
  note m = MaybeUseHistory_ok[OF assms]
  have mu: "MaybeUseHistory s = (fst (MaybeUseHistory s), None)"
    using m by (simp add: prod_eq_iff)
  have ok2: "index_ok (fst (MaybeUseHistory s))" using m by (simp add: index_ok_def)
  have e: "\<And>cb. index_ok (fst (Edit cb s)) \<and> history (p (fst (Edit cb s))) = history (p s)"
    using Edit_ok[OF assms] by (simp add: index_ok_def)
  have e2: "\<And>cb. index_ok (fst (Edit cb (fst (MaybeUseHistory s)))) \<and>
       history (p (fst (Edit cb (fst (MaybeUseHistory s))))) = history (p s)"
    using Edit_ok[OF ok2] m by (simp add: index_ok_def)
  have cr: "index_ok (fst (and_then (MaybeUseHistory s)
                     (\<lambda>s1. (on_terminal (SetCursorColumn 0)
                              (on_terminal (Puts [CHR 0x0A] []) s1), None))))
     \<and> history (p (fst (and_then (MaybeUseHistory s)
                     (\<lambda>s1. (on_terminal (SetCursorColumn 0)
                              (on_terminal (Puts [CHR 0x0A] []) s1), None))))) = history (p s)"
    by (subst mu, simp add: m index_ok_def)+
  have bs: "index_ok (fst (and_then (MaybeUseHistory s)
             (\<lambda>s1. if 0 < length (line s1)
                    then Edit (\<lambda>ln. take (length ln - 1) ln) s1 else (s1, None)))) \<and>
     history (p (fst (and_then (MaybeUseHistory s)
             (\<lambda>s1. if 0 < length (line s1)
                    then Edit (\<lambda>ln. take (length ln - 1) ln) s1 else (s1, None))))) = history (p s)"
    using e2 ok2 m by (subst mu, simp)+
  have cl: "index_ok (fst (Render (on_terminal Clear s))) \<and>
            history (p (fst (Render (on_terminal Clear s)))) = history (p s)"
    using assms by (simp add: index_ok_def)
  show ?thesis
    unfolding Prompt_step_def Let_def
    using assms e cr bs cl CompleteSuggest_frame[OF assms] HistoryPrevious_ok[OF assms]
      HistoryNext_ok[OF assms] History_moves_frame[of s]
    by simp
qed

lemma Prompt_loop_ok:
  "index_ok s \<Longrightarrow> index_ok (fst (fst (Prompt_loop evs s))) \<and>
     history (p (fst (fst (Prompt_loop evs s)))) = history (p s)"
proof (induction evs arbitrary: s)
  case Nil
  then show ?case by simp
next
  case (Cons ev evs)
  from Prompt_step_ok[OF Cons.prems, of ev]
  have st: "index_ok (fst (fst (Prompt_step ev s)))"
    "history (p (fst (fst (Prompt_step ev s)))) = history (p s)" by simp_all
  show ?case
    using st Cons.IH[OF st(1)] by (simp add: Let_def)
qed

lemma Puts_out [simp]: "out (Puts f args t) = out t"
  by (simp add: Puts_def)

lemma Puts_screen: "out t \<Longrightarrow> screen (tty (Puts f args t)) = screen (tty t) @ [(f, args)]"
  by (simp add: Puts_def)

lemma put_options_out [simp]: "out (put_options opts t) = out t"
  by (induction opts arbitrary: t) (simp_all add: SetCursorColumn_def)

lemma put_options_screen:
  "out t \<Longrightarrow> screen (tty (put_options opts t)) =
     screen (tty t) @ concat (map (\<lambda>opt. [(opt @ [CHR 0x0A], []), (termSetCursorColumn, [1])]) opts)"
  by (induction opts arbitrary: t) (simp_all add: SetCursorColumn_def Puts_screen)

lemma Render_out [simp]: "out (terminal (p (fst (Render s)))) = out (terminal (p s))"
  by (simp add: Render_def Let_def SetCursorColumn_def)

lemma RenderCompletionOptions_out [simp]:
  "out (terminal (p (RenderCompletionOptions s))) = out (terminal (p s))"
  by (simp add: RenderCompletionOptions_def SetCursorColumn_def)

lemma Render_shown:
  "out (terminal (p s)) \<Longrightarrow> 0 \<le> Width (terminal (p s)) \<Longrightarrow> index_ok s \<Longrightarrow>
   shown (fst (Render s)) = shown s @ render_writes s"
  by (auto simp: shown_def render_writes_def Render_def Let_def SetCursorColumn_def Puts_screen
        index_ok_def effective_line_def)

lemma RenderCompletionOptions_shown:
  "out (terminal (p s)) \<Longrightarrow> completionOptions s = Some opts \<Longrightarrow>
   shown (RenderCompletionOptions s) = shown s @ option_writes opts"
  by (simp add: shown_def option_writes_def RenderCompletionOptions_def SetCursorColumn_def
        Puts_screen put_options_screen)

lemma CompleteSuggest_result:
  assumes fn: "completionFn (p s) = Some fn"
    and nc: "completionOptions s = None"
    and opts: "fn (line s) = Some opts" "opts \<noteq> []"
    and ok: "index_ok s"
    and w: "0 \<le> Width (terminal (p s))"
    and root: "common_root opts = Inr best"
  shows "snd (CompleteSuggest s) = None"
    and "line (fst (CompleteSuggest s)) = best"
    and "historyIndex (fst (CompleteSuggest s)) = -1"
    and "completionFn (p (fst (CompleteSuggest s))) = completionFn (p s)"
    and "completionOptions (fst (CompleteSuggest s)) =
           (if best = effective_line s then Some opts else None)"
    and "out (terminal (p s)) \<Longrightarrow>
         shown (fst (CompleteSuggest s)) =
           shown s @ (if 1 < length opts then option_writes opts else []) @
           [(termSetCursorColumn, [1]),
            (replicate (nat (Width (terminal (p s)))) CHR '' '', []),
            (termSetCursorColumn, [1]),
            (prompt s @ best, [])]"
proof -
  from CompleteSuggest_fresh[OF fn nc opts ok] root
  obtain s2 where s2: "historyIndex s2 = -1" "line s2 = effective_line s"
    "history (p s2) = history (p s)" "completionOptions s2 = Some opts"
    "terminal (p s2) = terminal (p s)" "prompt s2 = prompt s"
    "completionFn (p s2) = completionFn (p s)"
    and cs: "CompleteSuggest s =
       Render
         ((if line s2 \<noteq> best
           then (if 1 < length opts then RenderCompletionOptions s2 else s2)
                  \<lparr>completionOptions := None\<rparr>
           else (if 1 < length opts then RenderCompletionOptions s2 else s2))
          \<lparr>line := best\<rparr>)"
    by auto
  have pr: "prompt s2 = prompt s" using s2 by simp
  show "snd (CompleteSuggest s) = None"
    unfolding cs using s2 w by (simp add: Render_panic index_ok_def)
  show "line (fst (CompleteSuggest s)) = best" unfolding cs by simp
  show "historyIndex (fst (CompleteSuggest s)) = -1" unfolding cs using s2 by simp
  show "completionFn (p (fst (CompleteSuggest s))) = completionFn (p s)"
    unfolding cs using s2 by simp
  show "completionOptions (fst (CompleteSuggest s)) =
           (if best = effective_line s then Some opts else None)"
    unfolding cs using s2 by auto
  show "shown (fst (CompleteSuggest s)) =
           shown s @ (if 1 < length opts then option_writes opts else []) @
           [(termSetCursorColumn, [1]),
            (replicate (nat (Width (terminal (p s)))) CHR '' '', []),
            (termSetCursorColumn, [1]),
            (prompt s @ best, [])]" if o: "out (terminal (p s))"
  proof -
    define s3 where "s3 = (if 1 < length opts then RenderCompletionOptions s2 else s2)"
    define s5 where "s5 = (if line s2 \<noteq> best then s3\<lparr>completionOptions := None\<rparr> else s3)\<lparr>line := best\<rparr>"
    have o3: "out (terminal (p s3))" "Width (terminal (p s3)) = Width (terminal (p s))"
      "historyIndex s3 = -1" "prompt s3 = prompt s"
      using o s2 pr by (simp_all add: s3_def)
    have sh3: "shown s3 = shown s @ (if 1 < length opts then option_writes opts else [])"
      using RenderCompletionOptions_shown[of s2 opts] o s2
      by (simp add: s3_def shown_def)
    have f5: "out (terminal (p s5))" "Width (terminal (p s5)) = Width (terminal (p s))"
      "historyIndex s5 = -1" "prompt s5 = prompt s" "line s5 = best" "shown s5 = shown s3"
      using o3 by (simp_all add: s5_def shown_def)
    have "shown (fst (Render s5)) = shown s5 @ render_writes s5"
      using f5 w by (intro Render_shown) (simp_all add: index_ok_def)
    moreover have "CompleteSuggest s = Render s5"
      unfolding cs s5_def s3_def by simp
    ultimately show ?thesis
      using f5 sh3 by (simp add: render_writes_def effective_line_def)
  qed
qed

lemma CompleteSuggest_none:
  assumes "completionFn (p s) = Some fn" and "completionOptions s = None"
    and "fn (line s) = None \<or> fn (line s) = Some []"
  shows "CompleteSuggest s = (s, None)"
proof -
  have "s\<lparr>completionOptions := None\<rparr> = s"
    using assms(2) by (cases s) simp
  then show ?thesis
    using assms by (auto simp: CompleteSuggest_def Let_def)
qed

lemma CompleteSuggest_cached:
  assumes "completionFn (p s) = Some fn" and "completionOptions s = Some c"
  shows "CompleteSuggest s = Render (RenderCompletionOptions s)"
  using assms by (simp add: CompleteSuggest_def)

subsection \<open>Facts about the sample states\<close>

lemma abc_live_fields:
  "historyIndex abc_live = -1" "history (p abc_live) = [''a'', ''b'', ''c'']"
  "Width (terminal (p abc_live)) = 80" "line abc_live = []"
  by (simp_all add: abc_live_def Prompt_init_def abc_prompt_def AppendHistory_def NewPrompt_def
        terminal_eval)

lemma abc_live_shown:
  "out (terminal (p abc_live))" "prompt abc_live = ''$''" "shown abc_live = [(''$'', [])]"
  "completionOptions abc_live = None"
  by (simp_all add: shown_def abc_live_def Prompt_init_def abc_prompt_def AppendHistory_def
        NewPrompt_def terminal_eval)

lemma tab_state_fields:
  "completionFn (p (tab_state fn ln i)) = Some fn"
  "completionOptions (tab_state fn ln i) = None"
  "line (tab_state fn ln i) = ln"
  "historyIndex (tab_state fn ln i) = i"
  "history (p (tab_state fn ln i)) = [''a'', ''b'', ''c'']"
  "Width (terminal (p (tab_state fn ln i))) = 80"
  "out (terminal (p (tab_state fn ln i)))"
  "prompt (tab_state fn ln i) = ''$''"
  "shown (tab_state fn ln i) = [(''$'', [])]"
  using abc_live_fields abc_live_shown
  by (simp_all add: tab_state_def SetCompletionFn_def shown_def)

lemma common_root_samples:
  "common_root [''blue'', ''bl''] = Inr ''blue''"
  "common_root [''blue'', ''black''] = Inr ''bl''"
  "common_root [''blueberry''] = Inr ''blueberry''"
  "common_root [ln @ ''!''] = Inr (ln @ ''!'')"
  by (simp_all add: common_root_def go_string_eval)

subsection \<open>Claims about the editor\<close>

text \<open>
  C7. For every history and every history index: Up from \<open>-1\<close> with a
  non-empty history moves to the last index; Up from an index above 0
  decrements; Up changes nothing at index 0 and at \<open>-1\<close> with an empty
  history (the only index an empty history admits, so on an empty history
  neither Up nor Down moves a valid state). Down from the newest index or
  from \<open>-1\<close> gives \<open>-1\<close>, and increments otherwise. Both leave the history,
  the buffer and the cached candidates as they were, and neither panics in
  a state whose index is valid and whose terminal has a width. The
  scenario of the claim, on the history \<open>a\<close>, \<open>b\<close>, \<open>c\<close>, is the theorem
  after this one.
\<close>

theorem history_moves:
  "(historyIndex s = -1 \<and> history (p s) \<noteq> [] \<longrightarrow>
      historyIndex (fst (HistoryPrevious s)) = int (length (history (p s))) - 1) \<and>
   (0 < historyIndex s \<longrightarrow> historyIndex (fst (HistoryPrevious s)) = historyIndex s - 1) \<and>
   (historyIndex s = 0 \<or> historyIndex s = -1 \<and> history (p s) = [] \<longrightarrow>
      historyIndex (fst (HistoryPrevious s)) = historyIndex s) \<and>
   (index_ok s \<and> history (p s) = [] \<longrightarrow>
      historyIndex (fst (HistoryPrevious s)) = historyIndex s \<and>
      historyIndex (fst (HistoryNext s)) = historyIndex s) \<and>
   (historyIndex s = int (length (history (p s))) - 1 \<or> historyIndex s = -1 \<longrightarrow>
      historyIndex (fst (HistoryNext s)) = -1) \<and>
   (historyIndex s \<noteq> int (length (history (p s))) - 1 \<and> historyIndex s \<noteq> -1 \<longrightarrow>
      historyIndex (fst (HistoryNext s)) = historyIndex s + 1) \<and>
   history (p (fst (HistoryPrevious s))) = history (p s) \<and>
   line (fst (HistoryPrevious s)) = line s \<and>
   completionOptions (fst (HistoryPrevious s)) = completionOptions s \<and>
   history (p (fst (HistoryNext s))) = history (p s) \<and>
   line (fst (HistoryNext s)) = line s \<and>
   completionOptions (fst (HistoryNext s)) = completionOptions s \<and>
   (index_ok s \<and> 0 \<le> Width (terminal (p s)) \<longrightarrow>
      snd (HistoryPrevious s) = None \<and> snd (HistoryNext s) = None)"
  by (auto simp: HistoryPrevious_index HistoryNext_index History_moves_frame
        HistoryPrevious_panic HistoryNext_panic index_ok_def)

text \<open>
  From the live state with history \<open>a\<close>, \<open>b\<close>, \<open>c\<close>: three Up presses give
  the indices 2, 1, 0, a fourth leaves 0, Down from 0 gives 1, and Down
  from the live state stays at \<open>-1\<close>.
\<close>

theorem history_moves_witness:
  "historyIndex (fst (HistoryPrevious abc_live)) = 2 \<and>
   historyIndex (fst (HistoryPrevious (fst (HistoryPrevious abc_live)))) = 1 \<and>
   historyIndex (fst (HistoryPrevious (fst (HistoryPrevious (fst (HistoryPrevious abc_live)))))) = 0 \<and>
   historyIndex (fst (HistoryPrevious (fst (HistoryPrevious (fst (HistoryPrevious
      (fst (HistoryPrevious abc_live)))))))) = 0 \<and>
   historyIndex (fst (HistoryNext (fst (HistoryPrevious (fst (HistoryPrevious
      (fst (HistoryPrevious abc_live)))))))) = 1 \<and>
   historyIndex (fst (HistoryNext abc_live)) = -1 \<and>
   snd (HistoryPrevious abc_live) = None \<and> snd (HistoryNext abc_live) = None"
proof -
  define u1 where "u1 = fst (HistoryPrevious abc_live)"
  define u2 where "u2 = fst (HistoryPrevious u1)"
  define u3 where "u3 = fst (HistoryPrevious u2)"
  have ok: "index_ok abc_live" "0 \<le> Width (terminal (p abc_live))"
    by (simp_all add: index_ok_def abc_live_fields)
  have h1: "historyIndex u1 = 2" "history (p u1) = [''a'', ''b'', ''c'']"
    using history_moves[of abc_live] by (simp_all add: u1_def abc_live_fields)
  have h2: "historyIndex u2 = 1" "history (p u2) = [''a'', ''b'', ''c'']"
    using history_moves[of u1] h1 by (simp_all add: u2_def)
  have h3: "historyIndex u3 = 0" "history (p u3) = [''a'', ''b'', ''c'']"
    using history_moves[of u2] h2 by (simp_all add: u3_def)
  have h4: "historyIndex (fst (HistoryPrevious u3)) = 0"
    "historyIndex (fst (HistoryNext u3)) = 1"
    using history_moves[of u3] h3 by simp_all
  have h5: "historyIndex (fst (HistoryNext abc_live)) = -1"
    "snd (HistoryPrevious abc_live) = None" "snd (HistoryNext abc_live) = None"
    using history_moves[of abc_live] ok by (simp_all add: abc_live_fields)
  from h1 h2 h3 h4 h5 show ?thesis by (simp add: u1_def u2_def u3_def)
qed

text \<open>
  C10. The invariant \<open>index_ok\<close>: the history index is \<open>-1\<close> or a valid
  index of the history. It holds in the state \<open>Prompt\<close> starts from, and
  \<open>HistoryPrevious\<close>, \<open>HistoryNext\<close>, \<open>MaybeUseHistory\<close>, \<open>Edit\<close> and
  \<open>CompleteSuggest\<close> preserve it, as does every turn of the loop of
  \<open>Prompt\<close> and so the loop on any sequence of events, which also leaves
  the history itself untouched. In a state that satisfies it,
  \<open>MaybeUseHistory\<close> does not panic and \<open>Render\<close>, alone or at the end of
  the other operations, does not index the history out of range.
\<close>

theorem history_index_invariant:
  assumes "index_ok s"
  shows "index_ok (fst (HistoryPrevious s)) \<and> index_ok (fst (HistoryNext s)) \<and>
         index_ok (fst (MaybeUseHistory s)) \<and> index_ok (fst (Edit cb s)) \<and>
         index_ok (fst (CompleteSuggest s)) \<and>
         index_ok (fst (fst (Prompt_step ev s))) \<and>
         index_ok (fst (fst (Prompt_loop evs s))) \<and>
         history (p (fst (fst (Prompt_loop evs s)))) = history (p s) \<and>
         snd (MaybeUseHistory s) = None \<and>
         snd (Render s) \<noteq> Some IndexOutOfRange \<and>
         snd (HistoryPrevious s) \<noteq> Some IndexOutOfRange \<and>
         snd (HistoryNext s) \<noteq> Some IndexOutOfRange \<and>
         snd (Edit cb s) \<noteq> Some IndexOutOfRange \<and>
         index_ok (Prompt_init K pt pm) \<and>
         index_ok (fst (fst (Prompt_loop evs (Prompt_init K pt pm))))"
proof -
  have i: "index_ok (Prompt_init K pt pm)"
    by (simp add: index_ok_def Prompt_init_def)
  have e: "index_ok (fst (Edit cb s))"
    using Edit_ok[OF assms, of cb] by (simp add: index_ok_def)
  have m: "index_ok (fst (MaybeUseHistory s))"
    using MaybeUseHistory_ok[OF assms] by (simp add: index_ok_def)
  show ?thesis
    using assms i e m HistoryPrevious_ok[OF assms] HistoryNext_ok[OF assms]
      CompleteSuggest_frame[OF assms] Prompt_step_ok[OF assms, of ev]
      Prompt_loop_ok[OF assms, of evs] Prompt_loop_ok[OF i, of evs]
      MaybeUseHistory_ok[OF assms] Edit_ok[OF assms, of cb]
      HistoryPrevious_panic[OF assms] HistoryNext_panic[OF assms]
    by (simp add: Render_panic)
qed

text \<open>The invariant at work in a browsing state, index 2 of three entries.\<close>

theorem history_index_invariant_witness:
  "index_ok (fst (HistoryPrevious abc_live)) \<and>
   historyIndex (fst (HistoryPrevious abc_live)) = 2 \<and>
   index_ok (fst (HistoryPrevious (fst (HistoryPrevious abc_live)))) \<and>
   index_ok (fst (Edit (\<lambda>ln. ln @ ''x'') (fst (HistoryPrevious abc_live)))) \<and>
   snd (MaybeUseHistory (fst (HistoryPrevious abc_live))) = None \<and>
   snd (Render (fst (HistoryPrevious abc_live))) \<noteq> Some IndexOutOfRange"
proof -
  have i: "historyIndex (fst (HistoryPrevious abc_live)) = 2"
    "history (p (fst (HistoryPrevious abc_live))) = [''a'', ''b'', ''c'']"
    by (simp_all add: HistoryPrevious_index History_moves_frame abc_live_fields)
  then have h: "index_ok (fst (HistoryPrevious abc_live))"
    by (simp add: index_ok_def)
  from history_index_invariant[OF h, of "\<lambda>ln. ln @ ''x''"] h i show ?thesis by simp
qed

text \<open>
  C4, as the claim states it: the candidates would be cached exactly when
  the completion changed the buffer. With the candidates \<open>blue\<close> and
  \<open>black\<close>, a Tab on the buffer \<open>b\<close> changes it to \<open>bl\<close> and caches
  nothing, and a Tab on the buffer \<open>bl\<close> leaves it as it is and caches the
  list.
\<close>

theorem completion_cached_when_differs_counterexample:
  "line (fst (CompleteSuggest (tab_state (\<lambda>ln. Some [''blue'', ''black'']) ''b'' (-1)))) \<noteq>
     line (tab_state (\<lambda>ln. Some [''blue'', ''black'']) ''b'' (-1)) \<and>
   completionOptions (fst (CompleteSuggest (tab_state (\<lambda>ln. Some [''blue'', ''black'']) ''b'' (-1)))) = None \<and>
   line (fst (CompleteSuggest (tab_state (\<lambda>ln. Some [''blue'', ''black'']) ''bl'' (-1)))) =
     line (tab_state (\<lambda>ln. Some [''blue'', ''black'']) ''bl'' (-1)) \<and>
   completionOptions (fst (CompleteSuggest (tab_state (\<lambda>ln. Some [''blue'', ''black'']) ''bl'' (-1)))) =
     Some [''blue'', ''black'']"
proof -
  let ?fn = "\<lambda>ln::string. Some [''blue'', ''black'']"
  note r1 = CompleteSuggest_result[of "tab_state ?fn ''b'' (-1)" ?fn "[''blue'', ''black'']" "''bl''"]
  note r2 = CompleteSuggest_result[of "tab_state ?fn ''bl'' (-1)" ?fn "[''blue'', ''black'']" "''bl''"]
  show ?thesis
    using r1(2,5) r2(2,5)
    by (simp add: tab_state_fields common_root_samples index_ok_def effective_line_def)
qed

text \<open>
  C4, amended. After a Tab that invokes the callback, gets at least one
  candidate and finds their common root, the candidate list is cached if
  and only if the resulting buffer is equal to the effective line before
  the completion (the history entry when browsing, the live buffer
  otherwise); when the buffer changed, nothing is cached. When the list is
  cached, the next Tab redisplays it and renders, without the callback.
\<close>

theorem completion_cached_iff_unchanged:
  assumes "completionFn (p s) = Some fn"
    and "completionOptions s = None"
    and "fn (line s) = Some opts" and "opts \<noteq> []"
    and "index_ok s"
    and "0 \<le> Width (terminal (p s))"
    and "common_root opts = Inr best"
  shows "snd (CompleteSuggest s) = None \<and>
         line (fst (CompleteSuggest s)) = best \<and>
         (completionOptions (fst (CompleteSuggest s)) = Some opts) = (best = effective_line s) \<and>
         (completionOptions (fst (CompleteSuggest s)) = None) = (best \<noteq> effective_line s) \<and>
         (best = effective_line s \<longrightarrow>
            CompleteSuggest (fst (CompleteSuggest s)) =
              Render (RenderCompletionOptions (fst (CompleteSuggest s))))"
proof -
  note r = CompleteSuggest_result[OF assms]
  have c: "best = effective_line s \<longrightarrow>
            CompleteSuggest (fst (CompleteSuggest s)) =
              Render (RenderCompletionOptions (fst (CompleteSuggest s)))"
  proof
    assume "best = effective_line s"
    then have "completionOptions (fst (CompleteSuggest s)) = Some opts" using r(5) by simp
    moreover have "completionFn (p (fst (CompleteSuggest s))) = Some fn"
      using r(4) assms(1) by simp
    ultimately show "CompleteSuggest (fst (CompleteSuggest s)) =
              Render (RenderCompletionOptions (fst (CompleteSuggest s)))"
      by (rule CompleteSuggest_cached[rotated])
  qed
  show ?thesis using r(1,2,5) c by simp
qed

text \<open>Both directions on the sample state, candidates \<open>blue\<close> and \<open>black\<close>.\<close>

theorem completion_cached_iff_unchanged_witness:
  "common_root [''blue'', ''black''] = Inr ''bl'' \<and>
   effective_line (tab_state (\<lambda>ln. Some [''blue'', ''black'']) ''bl'' (-1)) = ''bl'' \<and>
   snd (CompleteSuggest (tab_state (\<lambda>ln. Some [''blue'', ''black'']) ''bl'' (-1))) = None \<and>
   completionOptions (fst (CompleteSuggest (tab_state (\<lambda>ln. Some [''blue'', ''black'']) ''bl'' (-1)))) =
     Some [''blue'', ''black''] \<and>
   effective_line (tab_state (\<lambda>ln. Some [''blue'', ''black'']) ''b'' (-1)) = ''b'' \<and>
   completionOptions (fst (CompleteSuggest (tab_state (\<lambda>ln. Some [''blue'', ''black'']) ''b'' (-1)))) = None"
proof -
  let ?fn = "\<lambda>ln::string. Some [''blue'', ''black'']"
  have ok: "\<And>ln. index_ok (tab_state ?fn ln (-1))"
    by (simp add: index_ok_def tab_state_fields)
  have e: "\<And>ln. effective_line (tab_state ?fn ln (-1)) = ln"
    by (simp add: effective_line_def tab_state_fields)
  note t1 = completion_cached_iff_unchanged[of "tab_state ?fn ''bl'' (-1)" ?fn
      "[''blue'', ''black'']" "''bl''", OF _ _ _ _ ok _ common_root_samples(2)]
  note t2 = completion_cached_iff_unchanged[of "tab_state ?fn ''b'' (-1)" ?fn
      "[''blue'', ''black'']" "''bl''", OF _ _ _ _ ok _ common_root_samples(2)]
  show ?thesis
    using t1 t2 by (simp add: tab_state_fields e common_root_samples)
qed

text \<open>
  C5. The claim: with no cached candidates the callback is invoked with
  the effective line, the history entry when browsing. \<open>CompleteSuggest\<close>
  passes \<open>s.line\<close> and calls \<open>MaybeUseHistory\<close> only afterwards. In the
  sample state browsing the entry \<open>c\<close> with an empty live buffer, a
  callback that answers with its argument followed by \<open>!\<close> yields the
  buffer \<open>!\<close>, not \<open>c!\<close>; and a callback that has the candidate \<open>cat\<close>
  for the line \<open>c\<close> and none for any other line leaves the state
  unchanged.
\<close>

theorem CompleteSuggest_asks_about_live_buffer:
  "effective_line (tab_state (\<lambda>ln. Some [ln @ ''!'']) [] 2) = ''c'' \<and>
   line (tab_state (\<lambda>ln. Some [ln @ ''!'']) [] 2) = [] \<and>
   snd (CompleteSuggest (tab_state (\<lambda>ln. Some [ln @ ''!'']) [] 2)) = None \<and>
   line (fst (CompleteSuggest (tab_state (\<lambda>ln. Some [ln @ ''!'']) [] 2))) = ''!'' \<and>
   CompleteSuggest (tab_state (\<lambda>ln. if ln = ''c'' then Some [''cat''] else None) [] 2) =
     (tab_state (\<lambda>ln. if ln = ''c'' then Some [''cat''] else None) [] 2, None)"
proof -
  let ?echo = "\<lambda>ln::string. Some [ln @ ''!'']"
  let ?only = "\<lambda>ln::string. if ln = ''c'' then Some [''cat''] else None"
  have ok: "index_ok (tab_state ?echo [] 2)"
    by (simp add: index_ok_def tab_state_fields)
  note r = CompleteSuggest_result[of "tab_state ?echo [] 2" ?echo "[''!'']" "''!''"]
  have a: "snd (CompleteSuggest (tab_state ?echo [] 2)) = None"
    "line (fst (CompleteSuggest (tab_state ?echo [] 2))) = ''!''"
    using r(1,2) ok common_root_samples(4)[of "[]"] by (simp_all add: tab_state_fields)
  have b: "CompleteSuggest (tab_state ?only [] 2) = (tab_state ?only [] 2, None)"
    by (rule CompleteSuggest_none[of _ ?only]) (simp_all add: tab_state_fields)
  show ?thesis using a b by (simp add: effective_line_def tab_state_fields)
qed

text \<open>
  C6. The claim: the buffer becomes the longest common prefix of all
  candidates. The inner loop ends without a mismatch when a later candidate
  is a proper prefix of the current root, and the root is then kept: for
  the candidates \<open>blue\<close> and \<open>bl\<close> the root, and the buffer after Tab, is
  \<open>blue\<close>, which is not a prefix of \<open>bl\<close>. The two examples of the claim
  come out as stated: \<open>blue\<close> and \<open>black\<close> give the buffer \<open>bl\<close> with the
  list written before the line is rendered, and \<open>blueberry\<close> alone gives
  \<open>blueberry\<close> with no list written.
\<close>

theorem common_root_keeps_longer_candidate:
  "common_root [''blue'', ''bl''] = Inr ''blue'' \<and>
   snd (CompleteSuggest (tab_state (\<lambda>ln. Some [''blue'', ''bl'']) ''b'' (-1))) = None \<and>
   line (fst (CompleteSuggest (tab_state (\<lambda>ln. Some [''blue'', ''bl'']) ''b'' (-1)))) = ''blue'' \<and>
   line (fst (CompleteSuggest (tab_state (\<lambda>ln. Some [''blue'', ''black'']) ''b'' (-1)))) = ''bl'' \<and>
   shown (fst (CompleteSuggest (tab_state (\<lambda>ln. Some [''blue'', ''black'']) ''b'' (-1)))) =
     [(''$'', [])] @ option_writes [''blue'', ''black''] @
     [(termSetCursorColumn, [1]), (replicate 80 CHR '' '', []), (termSetCursorColumn, [1]),
      (''$bl'', [])] \<and>
   line (fst (CompleteSuggest (tab_state (\<lambda>ln. Some [''blueberry'']) ''b'' (-1)))) = ''blueberry'' \<and>
   shown (fst (CompleteSuggest (tab_state (\<lambda>ln. Some [''blueberry'']) ''b'' (-1)))) =
     [(''$'', []), (termSetCursorColumn, [1]), (replicate 80 CHR '' '', []),
      (termSetCursorColumn, [1]), (''$blueberry'', [])]"
proof -
  let ?f1 = "\<lambda>ln::string. Some [''blue'', ''bl'']"
  let ?f2 = "\<lambda>ln::string. Some [''blue'', ''black'']"
  let ?f3 = "\<lambda>ln::string. Some [''blueberry'']"
  have ok: "\<And>fn. index_ok (tab_state fn ''b'' (-1))"
    by (simp add: index_ok_def tab_state_fields)
  note r1 = CompleteSuggest_result[of "tab_state ?f1 ''b'' (-1)" ?f1 "[''blue'', ''bl'']" "''blue''",
      OF _ _ _ _ ok _ common_root_samples(1)]
  note r2 = CompleteSuggest_result[of "tab_state ?f2 ''b'' (-1)" ?f2 "[''blue'', ''black'']" "''bl''",
      OF _ _ _ _ ok _ common_root_samples(2)]
  note r3 = CompleteSuggest_result[of "tab_state ?f3 ''b'' (-1)" ?f3 "[''blueberry'']" "''blueberry''",
      OF _ _ _ _ ok _ common_root_samples(3)]
  have a: "snd (CompleteSuggest (tab_state ?f1 ''b'' (-1))) = None"
    "line (fst (CompleteSuggest (tab_state ?f1 ''b'' (-1)))) = ''blue''"
    using r1(1,2) by (simp_all add: tab_state_fields)
  have b: "line (fst (CompleteSuggest (tab_state ?f2 ''b'' (-1)))) = ''bl''"
    "shown (fst (CompleteSuggest (tab_state ?f2 ''b'' (-1)))) =
     [(''$'', [])] @ option_writes [''blue'', ''black''] @
     [(termSetCursorColumn, [1]), (replicate 80 CHR '' '', []), (termSetCursorColumn, [1]),
      (''$bl'', [])]"
    using r2(2,6) by (simp_all add: tab_state_fields)
  have c: "line (fst (CompleteSuggest (tab_state ?f3 ''b'' (-1)))) = ''blueberry''"
    "shown (fst (CompleteSuggest (tab_state ?f3 ''b'' (-1)))) =
     [(''$'', []), (termSetCursorColumn, [1]), (replicate 80 CHR '' '', []),
      (termSetCursorColumn, [1]), (''$blueberry'', [])]"
    using r3(2,6) by (simp_all add: tab_state_fields)
  from a b c common_root_samples(1) show ?thesis by simp
qed

end
